theory Spec2Isabelle
  imports Main "HOL-Library.Word"
begin

section \<open>Strings of the program\<close>

text \<open>
  The program is TypeScript: a string is a sequence of UTF-16 code units. The whitespace test
  of \<^verbatim>\<open>String.prototype.trim\<close> covers code units above 255, so a string is modelled as a
  list of 16-bit words rather than as a list of 8-bit characters.
\<close>

type_synonym jsstring = "16 word list"

text \<open>ASCII text written as an Isabelle literal, as code units.\<close>

definition js :: "string \<Rightarrow> jsstring" where
  "js cs = map (\<lambda>c. of_nat (of_char c)) cs"

text \<open>
  The code units that \<^verbatim>\<open>trim\<close> strips: ECMAScript WhiteSpace (TAB, VT, FF, SP, NBSP, ZWNBSP
  and the other space separators) and LineTerminator (LF, CR, LS, PS).
\<close>

definition is_ws :: "16 word \<Rightarrow> bool" where
  "is_ws c \<longleftrightarrow>
     c = 0x0009 \<or> c = 0x000A \<or> c = 0x000B \<or> c = 0x000C \<or> c = 0x000D \<or> c = 0x0020 \<or>
     c = 0x00A0 \<or> c = 0x1680 \<or> (0x2000 \<le> c \<and> c \<le> 0x200A) \<or> c = 0x2028 \<or> c = 0x2029 \<or>
     c = 0x202F \<or> c = 0x205F \<or> c = 0x3000 \<or> c = 0xFEFF"

definition trim :: "jsstring \<Rightarrow> jsstring" where
  "trim s = rev (dropWhile is_ws (rev (dropWhile is_ws s)))"

text \<open>
  \<^verbatim>\<open>Date.now().toString()\<close>: the clock reading is an integer number of milliseconds (far
  below the magnitude at which a number prints in exponent notation), printed in decimal with
  a leading minus sign when negative.
\<close>

definition digit :: "nat \<Rightarrow> 16 word" where
  "digit d = 0x0030 + of_nat d"

function digits :: "nat \<Rightarrow> jsstring" where
  "digits n = (if n < 10 then [digit n] else digits (n div 10) @ [digit (n mod 10)])"
  by pat_completeness auto
termination
  by (relation "measure (\<lambda>n. n)") auto

declare digits.simps [simp del]

definition toString :: "int \<Rightarrow> jsstring" where
  "toString i = (if i < 0 then 0x002D # digits (nat (- i)) else digits (nat i))"

section \<open>Data model\<close>

text \<open>
  The element type of the \<^verbatim>\<open>tasks\<close> state of \<^verbatim>\<open>App\<close>:
  \<^verbatim>\<open>{ id: string; text: string; completed: boolean; priority: 'high' | 'medium' | 'low';
     notificationId?: string }\<close>.
  The fields \<^verbatim>\<open>id\<close> and \<^verbatim>\<open>text\<close> are named \<open>task_id\<close> and \<open>task_text\<close> here; an absent or
  \<^verbatim>\<open>undefined\<close> \<^verbatim>\<open>notificationId\<close> is \<open>None\<close>.
\<close>

datatype priority = High | Medium | Low

record task_item =
  task_id :: jsstring
  task_text :: jsstring
  completed :: bool
  priority :: priority
  notificationId :: "jsstring option"

text \<open>The \<^verbatim>\<open>useState\<close> cells of \<^verbatim>\<open>App\<close>.\<close>

record app_state =
  task :: jsstring
  tasks :: "task_item list"
  editInfo :: "(jsstring \<times> jsstring) option"
  editModalVisible :: bool
  editText :: jsstring

text \<open>The initial values given to \<^verbatim>\<open>useState\<close>.\<close>

definition init_state :: app_state where
  "init_state = \<lparr>task = [], tasks = [], editInfo = None, editModalVisible = False, editText = []\<rparr>"

text \<open>
  A promise of the platform that rejects, or an exception thrown by it. The calls a handler
  makes to the platform are recorded in order.
\<close>

datatype error = Rejected | SyntaxError

datatype effect =
    Schedule jsstring
  | Cancel jsstring
  | Announce string
  | KeyboardDismiss
  | ConsoleError string

text \<open>
  A handler returns the calls it made and either the state it left through \<^verbatim>\<open>setTasks\<close> and
  the other setters, or the rejection that escaped it. A handler that rejects has set
  nothing, so the React state stays what it was.
\<close>

type_synonym outcome = "effect list \<times> (error + app_state)"

definition settle :: "app_state \<Rightarrow> outcome \<Rightarrow> app_state" where
  "settle s r = (case snd r of Inl e \<Rightarrow> s | Inr s' \<Rightarrow> s')"

section \<open>Handlers\<close>

text \<open>
  \<^verbatim>\<open>scheduleNotification\<close> awaits \<^verbatim>\<open>Notifications.scheduleNotificationAsync\<close> and returns its
  identifier; it has no handler for a rejection. The platform's answer is the parameter
  \<open>sched\<close>.
\<close>

definition scheduleNotification :: "error + jsstring \<Rightarrow> jsstring \<Rightarrow> effect list \<times> (error + jsstring)" where
  "scheduleNotification sched taskText = ([Schedule taskText], sched)"

text \<open>
  \<^verbatim>\<open>cancelNotification\<close> calls the platform only for a truthy identifier: neither
  \<^verbatim>\<open>undefined\<close> nor the empty string. Its callers do not await it.
\<close>

definition cancelNotification :: "jsstring option \<Rightarrow> effect list" where
  "cancelNotification n = (case n of None \<Rightarrow> [] | Some h \<Rightarrow> if h = [] then [] else [Cancel h])"

definition handleEditTask :: "jsstring \<Rightarrow> jsstring \<Rightarrow> app_state \<Rightarrow> app_state" where
  "handleEditTask i txt s = s\<lparr>editInfo := Some (i, txt), editText := txt, editModalVisible := True\<rparr>"

definition handleSaveEdit :: "app_state \<Rightarrow> effect list \<times> app_state" where
  "handleSaveEdit s =
     (case editInfo s of
        None \<Rightarrow> ([], s)
      | Some (i, _) \<Rightarrow>
          if trim (editText s) \<noteq> [] then
            ([Announce ''Task updated''],
             s\<lparr>tasks := map (\<lambda>t. if task_id t = i then t\<lparr>task_text := editText s\<rparr> else t) (tasks s),
               editInfo := None, editText := [], editModalVisible := False\<rparr>)
          else ([], s))"

definition handleCancelEdit :: "app_state \<Rightarrow> app_state" where
  "handleCancelEdit s = s\<lparr>editInfo := None, editText := [], editModalVisible := False\<rparr>"

text \<open>\<open>now\<close> is the reading of \<^verbatim>\<open>Date.now()\<close> taken after the awaited call has resolved.\<close>

definition handleAddTask :: "int \<Rightarrow> error + jsstring \<Rightarrow> app_state \<Rightarrow> outcome" where
  "handleAddTask now sched s =
     (if trim (task s) \<noteq> [] then
        if \<not> editModalVisible s then
          (case scheduleNotification sched (task s) of
             (es, Inl e) \<Rightarrow> (es, Inl e)
           | (es, Inr nid) \<Rightarrow>
               (es @ [Announce ''Task added'', KeyboardDismiss],
                Inr (s\<lparr>tasks := tasks s @
                          [\<lparr>task_id = toString now, task_text = task s, completed = False,
                            priority = Medium, notificationId = Some nid\<rparr>],
                        task := []\<rparr>)))
        else ([], Inr s)
      else ([], Inr s))"

text \<open>
  In the branch that reschedules, \<^verbatim>\<open>setTasks\<close> runs in the \<^verbatim>\<open>then\<close> callback only; a rejection
  has no handler and leaves the state alone.
\<close>

definition handleToggleComplete :: "error + jsstring \<Rightarrow> jsstring \<Rightarrow> app_state \<Rightarrow> outcome" where
  "handleToggleComplete sched i s =
     (let taskToToggle = find (\<lambda>t. task_id t = i) (tasks s) in
      case taskToToggle of
        Some tt \<Rightarrow>
          if completed tt then
            (case scheduleNotification sched (task_text tt) of
               (es, Inl e) \<Rightarrow> (es, Inl e)
             | (es, Inr newNotificationId) \<Rightarrow>
                 (es @ [Announce ''Task marked incomplete''],
                  Inr (s\<lparr>tasks := map (\<lambda>t. if task_id t = i
                                  then t\<lparr>completed := \<not> completed t, notificationId := Some newNotificationId\<rparr>
                                  else t) (tasks s)\<rparr>)))
          else
            (cancelNotification (notificationId tt) @ [Announce ''Task marked complete''],
             Inr (s\<lparr>tasks := map (\<lambda>t. if task_id t = i
                             then t\<lparr>completed := \<not> completed t, notificationId := None\<rparr>
                             else t) (tasks s)\<rparr>))
      | None \<Rightarrow>
          (cancelNotification None @ [Announce ''Task marked complete''],
           Inr (s\<lparr>tasks := map (\<lambda>t. if task_id t = i
                           then t\<lparr>completed := \<not> completed t, notificationId := None\<rparr>
                           else t) (tasks s)\<rparr>)))"

definition handleDeleteTask :: "jsstring \<Rightarrow> app_state \<Rightarrow> effect list \<times> app_state" where
  "handleDeleteTask i s =
     (let taskToDelete = find (\<lambda>t. task_id t = i) (tasks s) in
      (cancelNotification (case taskToDelete of None \<Rightarrow> None | Some td \<Rightarrow> notificationId td)
         @ [Announce ''Task deleted''],
       s\<lparr>tasks := filter (\<lambda>t. task_id t \<noteq> i) (tasks s)\<rparr>))"

definition handlePriorityChange :: "jsstring \<Rightarrow> priority \<Rightarrow> app_state \<Rightarrow> app_state" where
  "handlePriorityChange i p s =
     s\<lparr>tasks := map (\<lambda>t. if task_id t = i then t\<lparr>priority := p\<rparr> else t) (tasks s)\<rparr>"

text \<open>
  \<^verbatim>\<open>loadTasks\<close>, run once when the component mounts. \<open>got\<close> is the answer of
  \<^verbatim>\<open>AsyncStorage.getItem('tasks')\<close>: a rejection, \<^verbatim>\<open>null\<close> (\<open>None\<close>) or the stored string.
  \<open>parse\<close> stands for \<^verbatim>\<open>JSON.parse\<close>, which throws a \<^verbatim>\<open>SyntaxError\<close> on text that is not JSON.
  The body of the \<^verbatim>\<open>try\<close> block comes first, the \<^verbatim>\<open>catch\<close> around it second.
\<close>

definition loadTasks_try ::
  "(jsstring \<Rightarrow> error + task_item list) \<Rightarrow> error + jsstring option \<Rightarrow> app_state \<Rightarrow> error + app_state" where
  "loadTasks_try parse got s =
     (case got of
        Inl e \<Rightarrow> Inl e
      | Inr savedTasks \<Rightarrow>
          (case savedTasks of
             None \<Rightarrow> Inr s
           | Some v \<Rightarrow>
               if v \<noteq> [] then
                 (case parse v of Inl e \<Rightarrow> Inl e | Inr ts \<Rightarrow> Inr (s\<lparr>tasks := ts\<rparr>))
               else Inr s))"

definition loadTasks ::
  "(jsstring \<Rightarrow> error + task_item list) \<Rightarrow> error + jsstring option \<Rightarrow> app_state \<Rightarrow> outcome" where
  "loadTasks parse got s =
     (case loadTasks_try parse got s of
        Inl e \<Rightarrow> ([ConsoleError ''Failed to load tasks.''], Inr s)
      | Inr s' \<Rightarrow> ([], Inr s'))"

section \<open>Sequences of user actions\<close>

text \<open>
  What the user can do on the screen, each action carrying the answers the platform gives
  while its handler runs. Every action settles before the next one starts.
  \<^verbatim>\<open>onChangeText\<close> of the two inputs is \<^verbatim>\<open>setTask\<close> and \<^verbatim>\<open>setEditText\<close>.
\<close>

datatype event =
    ChangeText jsstring
  | PressAdd int "error + jsstring"
  | PressEdit jsstring jsstring
  | ChangeEditText jsstring
  | PressSave
  | PressCancel
  | PressToggle "error + jsstring" jsstring
  | PressDelete jsstring
  | PriorityChange jsstring priority

fun step :: "app_state \<Rightarrow> event \<Rightarrow> app_state" where
  "step s (ChangeText txt) = s\<lparr>task := txt\<rparr>"
| "step s (PressAdd now sched) = settle s (handleAddTask now sched s)"
| "step s (PressEdit i txt) = handleEditTask i txt s"
| "step s (ChangeEditText txt) = s\<lparr>editText := txt\<rparr>"
| "step s PressSave = snd (handleSaveEdit s)"
| "step s PressCancel = handleCancelEdit s"
| "step s (PressToggle sched i) = settle s (handleToggleComplete sched i s)"
| "step s (PressDelete i) = snd (handleDeleteTask i s)"
| "step s (PriorityChange i p) = handlePriorityChange i p s"

definition run :: "app_state \<Rightarrow> event list \<Rightarrow> app_state" where
  "run s evs = foldl step s evs"

text \<open>The clock readings taken by the add actions of a sequence, in order.\<close>

fun add_times :: "event list \<Rightarrow> int list" where
  "add_times [] = []"
| "add_times (PressAdd now sched # evs) = now # add_times evs"
| "add_times (e # evs) = add_times evs"

text \<open>The ids named by the delete actions of a sequence, in order.\<close>

fun deleted :: "event list \<Rightarrow> jsstring list" where
  "deleted [] = []"
| "deleted (PressDelete i # evs) = i # deleted evs"
| "deleted (e # evs) = deleted evs"

text \<open>A list of two tasks, one open with a reminder and one completed, for the examples.\<close>

definition two_tasks :: "task_item list" where
  "two_tasks =
     [\<lparr>task_id = js ''1753461155000'', task_text = js ''Buy milk'', completed = False,
       priority = High, notificationId = Some (js ''n1'')\<rparr>,
      \<lparr>task_id = js ''1753461279000'', task_text = js ''Call bank'', completed = True,
       priority = Low, notificationId = None\<rparr>]"

text \<open>The relation between completion and the reminder handle that the data model states.\<close>

definition reminder_inv :: "task_item list \<Rightarrow> bool" where
  "reminder_inv ts \<longleftrightarrow> list_all (\<lambda>t. completed t \<longleftrightarrow> notificationId t = None) ts"

section \<open>Blank input\<close>

lemma trim_empty_iff: "trim s = [] \<longleftrightarrow> (\<forall>c\<in>set s. is_ws c)"
proof
  assume "trim s = []"
  then have a: "\<forall>c\<in>set (dropWhile is_ws s). is_ws c"
    by (simp add: trim_def)
  have "dropWhile is_ws s = []"
  proof (rule ccontr)
    assume ne: "dropWhile is_ws s \<noteq> []"
    then have "\<not> is_ws (hd (dropWhile is_ws s))" by (rule hd_dropWhile)
    moreover from ne have "hd (dropWhile is_ws s) \<in> set (dropWhile is_ws s)" by simp
    ultimately show False using a by blast
  qed
  then show "\<forall>c\<in>set s. is_ws c" by simp
next
  assume "\<forall>c\<in>set s. is_ws c"
  then show "trim s = []" by (auto simp: trim_def dest: set_dropWhileD)
qed

text \<open>
  C7. When the input field holds only whitespace (or nothing), so that its trim is empty,
  \<^verbatim>\<open>handleAddTask\<close> makes no platform call, raises nothing and returns the state it was
  given: no task is appended.
\<close>

theorem add_blank_noop:
  "(\<forall>c\<in>set (task s). is_ws c) \<Longrightarrow>
     trim (task s) = [] \<and> handleAddTask now sched s = ([], Inr s) \<and>
     step s (PressAdd now sched) = s"
  by (simp add: trim_empty_iff handleAddTask_def settle_def)

theorem add_blank_noop_witness:
  "list_all is_ws (task (init_state\<lparr>task := js ''   ''\<rparr>)) \<and>
   trim (task (init_state\<lparr>task := js ''   ''\<rparr>)) = [] \<and>
   handleAddTask 1753461155000 (Inr (js ''n1'')) (init_state\<lparr>task := js ''   ''\<rparr>)
     = ([], Inr (init_state\<lparr>task := js ''   ''\<rparr>))"
  using add_blank_noop [of "init_state\<lparr>task := js ''   ''\<rparr>" 1753461155000 "Inr (js ''n1'')"]
  by (simp add: js_def is_ws_def)

section \<open>The guard on the edit modal\<close>

text \<open>
  C9. While the edit modal is visible, \<^verbatim>\<open>handleAddTask\<close> does nothing whatever the input
  field holds: no platform call (so no reminder is scheduled) and the state is returned as it
  was, with no task appended.
\<close>

theorem add_while_editing_noop:
  "editModalVisible s \<Longrightarrow> handleAddTask now sched s = ([], Inr s) \<and> step s (PressAdd now sched) = s"
  by (simp add: handleAddTask_def settle_def)

theorem add_while_editing_noop_witness:
  "trim (js ''Buy milk'') \<noteq> [] \<and>
   editModalVisible (init_state\<lparr>task := js ''Buy milk'', editModalVisible := True\<rparr>) \<and>
   handleAddTask 1753461155000 (Inr (js ''n1'')) (init_state\<lparr>task := js ''Buy milk'', editModalVisible := True\<rparr>)
     = ([], Inr (init_state\<lparr>task := js ''Buy milk'', editModalVisible := True\<rparr>))"
  using add_while_editing_noop [of "init_state\<lparr>task := js ''Buy milk'', editModalVisible := True\<rparr>"
      1753461155000 "Inr (js ''n1'')"]
  by (simp add: js_def trim_def is_ws_def)

section \<open>Loading at start\<close>

text \<open>
  C8. At process start, when the store holds no value, or holds a value that
  \<^verbatim>\<open>JSON.parse\<close> rejects, \<^verbatim>\<open>loadTasks\<close> returns normally and leaves the initial state, whose
  task list is empty.
\<close>

theorem loadTasks_absent_or_unparseable:
  assumes "got = Inr None \<or> (\<exists>v e. got = Inr (Some v) \<and> parse v = Inl e)"
  shows "snd (loadTasks parse got init_state) = Inr init_state \<and> tasks init_state = []"
  using assms by (auto simp: loadTasks_def loadTasks_try_def init_state_def)

theorem loadTasks_absent_or_unparseable_witness:
  "snd (loadTasks (\<lambda>v. Inl SyntaxError) (Inr (Some (js ''[{oops''))) init_state) = Inr init_state \<and>
   snd (loadTasks (\<lambda>v. Inl SyntaxError) (Inr None) init_state) = Inr init_state \<and>
   tasks init_state = []"
  using loadTasks_absent_or_unparseable [of "Inr (Some (js ''[{oops''))" "\<lambda>v. Inl SyntaxError"]
    loadTasks_absent_or_unparseable [of "Inr None" "\<lambda>v. Inl SyntaxError"]
  by simp

section \<open>A schedule request that fails\<close>

text \<open>
  C2, as the specification states it: when the schedule request fails, the add still
  appends the task, with no reminder handle, and raises nothing. The code has no handler
  around the awaited request. With ``Buy milk'' in the input field and a request that
  rejects, \<^verbatim>\<open>handleAddTask\<close> ends in that rejection and the task list is still empty.
\<close>

theorem add_schedule_failure_counterexample:
  "trim (js ''Buy milk'') \<noteq> [] \<and>
   snd (handleAddTask 1753461155000 (Inl Rejected) (init_state\<lparr>task := js ''Buy milk''\<rparr>)) = Inl Rejected \<and>
   tasks (step (init_state\<lparr>task := js ''Buy milk''\<rparr>) (PressAdd 1753461155000 (Inl Rejected))) = []"
  by (simp add: js_def trim_def is_ws_def init_state_def handleAddTask_def scheduleNotification_def settle_def)

text \<open>
  C2, amended. For input with non-empty trim and the edit modal hidden, when the schedule
  request fails the add does not complete: the request was issued, its rejection is the
  outcome of \<^verbatim>\<open>handleAddTask\<close>, and the state (the task list and the input field) is unchanged.
\<close>

theorem add_schedule_rejected:
  "trim (task s) \<noteq> [] \<Longrightarrow> \<not> editModalVisible s \<Longrightarrow>
     handleAddTask now (Inl e) s = ([Schedule (task s)], Inl e) \<and>
     step s (PressAdd now (Inl e)) = s"
  by (simp add: handleAddTask_def scheduleNotification_def settle_def)

theorem add_schedule_rejected_witness:
  "trim (task (init_state\<lparr>task := js ''Buy milk''\<rparr>)) \<noteq> [] \<and>
   \<not> editModalVisible (init_state\<lparr>task := js ''Buy milk''\<rparr>) \<and>
   handleAddTask 1753461155000 (Inl Rejected) (init_state\<lparr>task := js ''Buy milk''\<rparr>)
     = ([Schedule (js ''Buy milk'')], Inl Rejected)"
  using add_schedule_rejected [of "init_state\<lparr>task := js ''Buy milk''\<rparr>" 1753461155000 Rejected]
  by (simp add: js_def trim_def is_ws_def init_state_def)

section \<open>The order of the task list\<close>

text \<open>
  The handlers that rewrite tasks do it with \<^verbatim>\<open>map\<close>, the one that removes with \<^verbatim>\<open>filter\<close>, and
  the one that adds appends: the list of ids changes only by an append or by dropping an id.
\<close>

lemma ids_map_upd:
  "(\<And>t. task_id (f t) = task_id t) \<Longrightarrow> map task_id (map (\<lambda>t. if P t then f t else t) ts) = map task_id ts"
  by (induction ts) auto

lemma toggle_ids:
  "map task_id (tasks (settle s (handleToggleComplete sched i s))) = map task_id (tasks s)"
  by (auto simp: handleToggleComplete_def settle_def scheduleNotification_def Let_def ids_map_upd
      split: option.splits sum.splits)

lemma priority_ids: "map task_id (tasks (handlePriorityChange i p s)) = map task_id (tasks s)"
  by (simp add: handlePriorityChange_def ids_map_upd)

lemma save_ids: "map task_id (tasks (snd (handleSaveEdit s))) = map task_id (tasks s)"
  by (auto simp: handleSaveEdit_def ids_map_upd split: option.splits)

lemma delete_ids:
  "map task_id (tasks (snd (handleDeleteTask i s))) = filter (\<lambda>j. j \<noteq> i) (map task_id (tasks s))"
  by (simp add: handleDeleteTask_def Let_def filter_map o_def)

lemma add_ids:
  "map task_id (tasks (settle s (handleAddTask now sched s))) =
     (if trim (task s) \<noteq> [] \<and> \<not> editModalVisible s
      then (case sched of Inl e \<Rightarrow> map task_id (tasks s) | Inr h \<Rightarrow> map task_id (tasks s) @ [toString now])
      else map task_id (tasks s))"
  by (auto simp: handleAddTask_def settle_def scheduleNotification_def split: sum.splits)

lemma step_ids_append:
  "\<exists>extra. map task_id (tasks (step s e)) = filter (\<lambda>j. j \<notin> set (deleted [e])) (map task_id (tasks s)) @ extra"
proof (cases e)
  case (PressAdd now sched)
  then show ?thesis by (cases sched) (simp_all add: add_ids)
next
  case (PressDelete i)
  then show ?thesis by (simp add: delete_ids)
qed (simp_all add: toggle_ids priority_ids save_ids handleEditTask_def handleCancelEdit_def)

lemma deleted_Cons: "set (deleted (e # evs)) = set (deleted [e]) \<union> set (deleted evs)"
  by (cases e) simp_all

lemma run_order:
  "\<exists>extra. map task_id (tasks (run s evs)) =
     filter (\<lambda>j. j \<notin> set (deleted evs)) (map task_id (tasks s)) @ extra"
proof (induction evs arbitrary: s)
  case Nil
  then show ?case by (simp add: run_def)
next
  case (Cons e evs)
  obtain x where x: "map task_id (tasks (step s e)) = filter (\<lambda>j. j \<notin> set (deleted [e])) (map task_id (tasks s)) @ x"
    using step_ids_append by blast
  obtain y where y: "map task_id (tasks (run (step s e) evs)) =
     filter (\<lambda>j. j \<notin> set (deleted evs)) (map task_id (tasks (step s e))) @ y"
    using Cons.IH by blast
  have "map task_id (tasks (run s (e # evs))) =
      filter (\<lambda>j. j \<notin> set (deleted (e # evs))) (map task_id (tasks s)) @
        (filter (\<lambda>j. j \<notin> set (deleted evs)) x @ y)"
  proof -
    have "run s (e # evs) = run (step s e) evs" by (simp add: run_def)
    then have "map task_id (tasks (run s (e # evs))) =
        filter (\<lambda>j. j \<notin> set (deleted evs))
          (filter (\<lambda>j. j \<notin> set (deleted [e])) (map task_id (tasks s)) @ x) @ y"
      by (simp only: y x)
    also have "\<dots> = filter (\<lambda>j. j \<notin> set (deleted [e]) \<and> j \<notin> set (deleted evs)) (map task_id (tasks s)) @
        (filter (\<lambda>j. j \<notin> set (deleted evs)) x @ y)"
      by (simp only: filter_append filter_filter append_assoc)
    also have "(\<lambda>j. j \<notin> set (deleted [e]) \<and> j \<notin> set (deleted evs)) = (\<lambda>j. j \<notin> set (deleted (e # evs)))"
      by (simp add: deleted_Cons [of e evs])
    finally show ?thesis .
  qed
  then show ?case by blast
qed

text \<open>
  C6, as the specification states it: for every input with non-empty trim the add appends
  one task. The code adds only when the edit modal is hidden: with ``Buy milk'' in the input
  field and the modal visible, the task list keeps its length and no request is issued.
\<close>

theorem add_guarded_counterexample:
  "trim (task (init_state\<lparr>task := js ''Buy milk'', editModalVisible := True\<rparr>)) \<noteq> [] \<and>
   length (tasks (step (init_state\<lparr>task := js ''Buy milk'', editModalVisible := True\<rparr>)
                       (PressAdd 1753461155000 (Inr (js ''n1''))))) =
   length (tasks (init_state\<lparr>task := js ''Buy milk'', editModalVisible := True\<rparr>)) \<and>
   fst (handleAddTask 1753461155000 (Inr (js ''n1''))
          (init_state\<lparr>task := js ''Buy milk'', editModalVisible := True\<rparr>)) = []"
  by (simp add: js_def trim_def is_ws_def init_state_def handleAddTask_def settle_def)

text \<open>
  C6, amended. For input with non-empty trim, when the edit modal is hidden and the schedule
  request succeeds, \<^verbatim>\<open>handleAddTask\<close> issues one schedule request for the text and appends
  exactly one task after the existing ones, which are unchanged: its text is the input, it is
  not completed, its priority is medium and its handle is the one the request returned.
  Whatever actions follow, the ids that were in the list and have not been deleted stay in
  the same order, ahead of everything added later; toggling completion and changing priority
  leave the order of ids as it is.
\<close>

theorem add_appends_in_order:
  assumes "trim (task s) \<noteq> []" and "\<not> editModalVisible s"
  shows "handleAddTask now (Inr h) s =
           ([Schedule (task s), Announce ''Task added'', KeyboardDismiss],
            Inr (s\<lparr>tasks := tasks s @
                      [\<lparr>task_id = toString now, task_text = task s, completed = False,
                        priority = Medium, notificationId = Some h\<rparr>],
                    task := []\<rparr>)) \<and>
         (\<forall>evs. \<exists>later.
            map task_id (tasks (run (step s (PressAdd now (Inr h))) evs)) =
              filter (\<lambda>j. j \<notin> set (deleted evs)) (map task_id (tasks s) @ [toString now]) @ later) \<and>
         (\<forall>s0 sched i p.
            map task_id (tasks (step s0 (PressToggle sched i))) = map task_id (tasks s0) \<and>
            map task_id (tasks (step s0 (PriorityChange i p))) = map task_id (tasks s0))"
proof (intro conjI allI)
  show "handleAddTask now (Inr h) s =
           ([Schedule (task s), Announce ''Task added'', KeyboardDismiss],
            Inr (s\<lparr>tasks := tasks s @
                      [\<lparr>task_id = toString now, task_text = task s, completed = False,
                        priority = Medium, notificationId = Some h\<rparr>],
                    task := []\<rparr>))"
    using assms by (simp add: handleAddTask_def scheduleNotification_def)
next
  fix evs
  have "map task_id (tasks (step s (PressAdd now (Inr h)))) = map task_id (tasks s) @ [toString now]"
    using assms by (simp add: add_ids)
  then show "\<exists>later. map task_id (tasks (run (step s (PressAdd now (Inr h))) evs)) =
              filter (\<lambda>j. j \<notin> set (deleted evs)) (map task_id (tasks s) @ [toString now]) @ later"
    using run_order [of "step s (PressAdd now (Inr h))" evs] by simp
next
  fix s0 sched i p
  show "map task_id (tasks (step s0 (PressToggle sched i))) = map task_id (tasks s0)"
    by (simp add: toggle_ids)
  show "map task_id (tasks (step s0 (PriorityChange i p))) = map task_id (tasks s0)"
    by (simp add: priority_ids)
qed

theorem add_appends_in_order_witness:
  "trim (task (init_state\<lparr>task := js ''Buy milk''\<rparr>)) \<noteq> [] \<and>
   \<not> editModalVisible (init_state\<lparr>task := js ''Buy milk''\<rparr>) \<and>
   handleAddTask 1753461155000 (Inr (js ''n1'')) (init_state\<lparr>task := js ''Buy milk''\<rparr>) =
     ([Schedule (js ''Buy milk''), Announce ''Task added'', KeyboardDismiss],
      Inr (init_state\<lparr>tasks :=
              [\<lparr>task_id = js ''1753461155000'', task_text = js ''Buy milk'', completed = False,
                priority = Medium, notificationId = Some (js ''n1'')\<rparr>]\<rparr>))"
proof -
  have t: "toString 1753461155000 = js ''1753461155000''"
    by (simp add: toString_def digits.simps digit_def js_def)
  have a: "trim (task (init_state\<lparr>task := js ''Buy milk''\<rparr>)) \<noteq> []"
    by (simp add: js_def trim_def is_ws_def)
  have b: "\<not> editModalVisible (init_state\<lparr>task := js ''Buy milk''\<rparr>)"
    by (simp add: init_state_def)
  from add_appends_in_order [OF a b, THEN conjunct1, of 1753461155000 "js ''n1''"] a b show ?thesis
    by (simp add: t init_state_def)
qed

section \<open>Editing\<close>

text \<open>
  C5. \<^verbatim>\<open>handleSaveEdit\<close> with an edit text of empty trim returns the whole state as it was and
  makes no call. With an edit text of non-empty trim, for the task id under edit, the list
  keeps its length and every task keeps its id, completion flag, priority and reminder
  handle; the text becomes the edit text for the tasks with that id and stays for the others.
\<close>

theorem edit_frame:
  "(trim (editText s) = [] \<longrightarrow> handleSaveEdit s = ([], s)) \<and>
   (trim (editText s) \<noteq> [] \<and> editInfo s = Some (i, x) \<longrightarrow>
      length (tasks (snd (handleSaveEdit s))) = length (tasks s) \<and>
      (\<forall>k<length (tasks s).
         task_id (tasks (snd (handleSaveEdit s)) ! k) = task_id (tasks s ! k) \<and>
         completed (tasks (snd (handleSaveEdit s)) ! k) = completed (tasks s ! k) \<and>
         priority (tasks (snd (handleSaveEdit s)) ! k) = priority (tasks s ! k) \<and>
         notificationId (tasks (snd (handleSaveEdit s)) ! k) = notificationId (tasks s ! k) \<and>
         task_text (tasks (snd (handleSaveEdit s)) ! k) =
           (if task_id (tasks s ! k) = i then editText s else task_text (tasks s ! k))))"
  by (auto simp: handleSaveEdit_def split: option.splits)

theorem edit_frame_witness:
  "trim (js ''Buy oat milk'') \<noteq> [] \<and>
   snd (handleSaveEdit (init_state\<lparr>tasks := two_tasks, editInfo := Some (js ''1753461155000'', js ''Buy milk''),
          editModalVisible := True, editText := js ''Buy oat milk''\<rparr>)) =
     init_state\<lparr>tasks :=
       [\<lparr>task_id = js ''1753461155000'', task_text = js ''Buy oat milk'', completed = False,
         priority = High, notificationId = Some (js ''n1'')\<rparr>,
        \<lparr>task_id = js ''1753461279000'', task_text = js ''Call bank'', completed = True,
         priority = Low, notificationId = None\<rparr>]\<rparr> \<and>
   handleSaveEdit (init_state\<lparr>tasks := two_tasks, editInfo := Some (js ''1753461155000'', js ''Buy milk''),
          editModalVisible := True, editText := js ''  ''\<rparr>) =
     ([], init_state\<lparr>tasks := two_tasks, editInfo := Some (js ''1753461155000'', js ''Buy milk''),
          editModalVisible := True, editText := js ''  ''\<rparr>)"
  using edit_frame [of "init_state\<lparr>tasks := two_tasks, editInfo := Some (js ''1753461155000'', js ''Buy milk''),
          editModalVisible := True, editText := js ''  ''\<rparr>"]
    edit_frame [of "init_state\<lparr>tasks := two_tasks, editInfo := Some (js ''1753461155000'', js ''Buy milk''),
          editModalVisible := True, editText := js ''Buy oat milk''\<rparr>" "js ''1753461155000''" "js ''Buy milk''"]
  by (simp add: js_def trim_def is_ws_def init_state_def two_tasks_def handleSaveEdit_def)

section \<open>The stored text\<close>

text \<open>
  C10. Only the emptiness test trims. For input of non-empty trim (edit modal hidden,
  schedule request answered), the task that the add appends carries the input field's
  string as it is; and saving an edit of non-empty trim stores the edit field's string as
  it is in the tasks with the id under edit. Leading and trailing whitespace is kept.
\<close>

theorem raw_text_stored:
  "(trim (task s) \<noteq> [] \<and> \<not> editModalVisible s \<longrightarrow>
      tasks (step s (PressAdd now (Inr h))) = butlast (tasks (step s (PressAdd now (Inr h)))) @
         [last (tasks (step s (PressAdd now (Inr h))))] \<and>
      butlast (tasks (step s (PressAdd now (Inr h)))) = tasks s \<and>
      task_text (last (tasks (step s (PressAdd now (Inr h))))) = task s) \<and>
   (trim (editText s) \<noteq> [] \<and> editInfo s = Some (i, x) \<longrightarrow>
      (\<forall>k<length (tasks s). task_id (tasks s ! k) = i \<longrightarrow>
         task_text (tasks (step s PressSave) ! k) = editText s))"
  by (auto simp: handleAddTask_def scheduleNotification_def settle_def handleSaveEdit_def)

theorem raw_text_stored_witness:
  "trim (js ''  Buy milk '') = js ''Buy milk'' \<and>
   map task_text (tasks (step (init_state\<lparr>task := js ''  Buy milk ''\<rparr>) (PressAdd 1753461155000 (Inr (js ''n1''))))) =
     [js ''  Buy milk ''] \<and>
   map task_text (tasks (step (init_state\<lparr>tasks := two_tasks, editInfo := Some (js ''1753461155000'', js ''Buy milk''),
          editModalVisible := True, editText := js '' Buy oat milk  ''\<rparr>) PressSave)) =
     [js '' Buy oat milk  '', js ''Call bank'']"
  using raw_text_stored [of "init_state\<lparr>task := js ''  Buy milk ''\<rparr>" 1753461155000 "js ''n1''"]
   raw_text_stored [of "init_state\<lparr>tasks := two_tasks, editInfo := Some (js ''1753461155000'', js ''Buy milk''),
          editModalVisible := True, editText := js '' Buy oat milk  ''\<rparr>" _ _ "js ''1753461155000''" "js ''Buy milk''"]
  by (simp add: js_def trim_def is_ws_def init_state_def two_tasks_def handleSaveEdit_def handleAddTask_def
      scheduleNotification_def settle_def)

section \<open>Task ids\<close>

text \<open>
  The decimal rendering of a clock reading determines the reading: two readings print the
  same string only if they are equal.
\<close>

lemma unat_digit: "d < 10 \<Longrightarrow> unat (digit d) = 48 + d"
proof -
  assume d: "d < 10"
  have a: "of_nat (48 + d) = digit d" by (simp add: digit_def)
  have "48 + d < 2 ^ LENGTH(16)" using d by simp
  with a show ?thesis by (rule of_nat_inverse)
qed

lemma digit_inj:
  assumes "a < 10" and "b < 10" and "digit a = digit b"
  shows "a = b"
proof -
  have "48 + a = unat (digit a)" by (simp only: unat_digit [OF assms(1)])
  also have "\<dots> = unat (digit b)" by (simp only: assms(3))
  also have "\<dots> = 48 + b" by (simp only: unat_digit [OF assms(2)])
  finally show ?thesis by simp
qed

lemma digit_not_minus: "d < 10 \<Longrightarrow> digit d \<noteq> 0x002D"
proof
  assume "d < 10" and "digit d = 0x002D"
  then have "unat (0x002D :: 16 word) = 48 + d" using unat_digit [of d] by simp
  then show False by simp
qed

lemma digits_nonempty: "digits n \<noteq> []"
  by (subst digits.simps) simp

lemma digits_are_digits: "c \<in> set (digits n) \<Longrightarrow> \<exists>d<10. c = digit d"
proof (induction n rule: digits.induct)
  case (1 n)
  show ?case
  proof (cases "n < 10")
    case True
    with "1.prems" show ?thesis by (subst (asm) digits.simps) auto
  next
    case False
    with "1.prems" have "c \<in> set (digits (n div 10)) \<or> c = digit (n mod 10)"
      by (subst (asm) digits.simps) auto
    then show ?thesis
    proof
      assume "c \<in> set (digits (n div 10))"
      with False "1.IH" show ?thesis by blast
    next
      assume "c = digit (n mod 10)"
      moreover have "n mod 10 < 10" by simp
      ultimately show ?thesis by blast
    qed
  qed
qed

lemma digits_inj: "digits n = digits m \<Longrightarrow> n = m"
proof (induction n arbitrary: m rule: digits.induct)
  case (1 n)
  show ?case
  proof (cases "n < 10")
    case n: True
    then have dn: "digits n = [digit n]" by (subst digits.simps) simp
    show ?thesis
    proof (cases "m < 10")
      case True
      then have "digits m = [digit m]" by (subst digits.simps) simp
      with dn "1.prems" n True show ?thesis by (simp add: digit_inj)
    next
      case False
      then have "digits m = digits (m div 10) @ [digit (m mod 10)]" by (subst digits.simps) simp
      with dn "1.prems" digits_nonempty [of "m div 10"] show ?thesis by (cases "digits (m div 10)") auto
    qed
  next
    case n: False
    then have dn: "digits n = digits (n div 10) @ [digit (n mod 10)]" by (subst digits.simps) simp
    show ?thesis
    proof (cases "m < 10")
      case True
      then have "digits m = [digit m]" by (subst digits.simps) simp
      with dn "1.prems" digits_nonempty [of "n div 10"] show ?thesis by (cases "digits (n div 10)") auto
    next
      case False
      then have "digits m = digits (m div 10) @ [digit (m mod 10)]" by (subst digits.simps) simp
      with dn "1.prems" have a: "digits (n div 10) = digits (m div 10)"
        and b: "digit (n mod 10) = digit (m mod 10)" by simp_all
      from a n "1.IH" have "n div 10 = m div 10" by blast
      moreover from b have "n mod 10 = m mod 10" by (rule digit_inj [rotated 2]) simp_all
      ultimately show ?thesis by (metis div_mult_mod_eq)
    qed
  qed
qed

lemma toString_inj: "toString a = toString b \<Longrightarrow> a = b"
proof -
  assume eq: "toString a = toString b"
  have no_minus: "0x002D \<notin> set (digits k)" for k
    using digits_are_digits [of "0x002D" k] digit_not_minus by metis
  have hd_digits: "digits k \<noteq> 0x002D # xs" for k xs
    using no_minus [of k] by (metis list.set_intros(1))
  show ?thesis
  proof (cases "a < 0")
    case a: True
    show ?thesis
    proof (cases "b < 0")
      case True
      with a eq have "digits (nat (- a)) = digits (nat (- b))" by (simp add: toString_def)
      then have "nat (- a) = nat (- b)" by (rule digits_inj)
      with a True show ?thesis by simp
    next
      case False
      with a eq hd_digits [of "nat b" "digits (nat (- a))"] show ?thesis by (simp add: toString_def)
    qed
  next
    case a: False
    show ?thesis
    proof (cases "b < 0")
      case True
      with a eq hd_digits [of "nat a" "digits (nat (- b))"] show ?thesis by (simp add: toString_def)
    next
      case False
      with a eq have "digits (nat a) = digits (nat b)" by (simp add: toString_def)
      then have "nat a = nat b" by (rule digits_inj)
      with a False show ?thesis by simp
    qed
  qed
qed

text \<open>
  Which ids a step can leave in the list, and when they stay pairwise distinct.
\<close>

lemma step_ids_cases:
  "map task_id (tasks (step s e)) =
     (case e of
        PressAdd now sched \<Rightarrow>
          (if trim (task s) \<noteq> [] \<and> \<not> editModalVisible s
           then (case sched of Inl err \<Rightarrow> map task_id (tasks s) | Inr h \<Rightarrow> map task_id (tasks s) @ [toString now])
           else map task_id (tasks s))
      | PressDelete i \<Rightarrow> filter (\<lambda>j. j \<noteq> i) (map task_id (tasks s))
      | _ \<Rightarrow> map task_id (tasks s))"
  by (cases e) (simp_all add: add_ids toggle_ids priority_ids save_ids delete_ids
      handleEditTask_def handleCancelEdit_def)

lemma step_ids_subset:
  "set (map task_id (tasks (step s e))) \<subseteq> set (map task_id (tasks s)) \<union> toString ` set (add_times [e])"
  using step_ids_cases [of s e]
  by (cases e) (auto simp del: step.simps split: sum.splits if_splits)

lemma step_distinct:
  assumes "distinct (map task_id (tasks s))"
    and "toString ` set (add_times [e]) \<inter> set (map task_id (tasks s)) = {}"
  shows "distinct (map task_id (tasks (step s e)))"
  using assms step_ids_cases [of s e]
  by (cases e) (auto simp del: step.simps split: sum.splits if_splits)

lemma add_times_Cons: "add_times (e # evs) = add_times [e] @ add_times evs"
  by (cases e) simp_all


lemma fresh_step:
  assumes "distinct (add_times (e # evs))"
    and "distinct (map task_id (tasks s))"
    and "toString ` set (add_times (e # evs)) \<inter> set (map task_id (tasks s)) = {}"
  shows "distinct (add_times evs) \<and> distinct (map task_id (tasks (step s e))) \<and>
         toString ` set (add_times evs) \<inter> set (map task_id (tasks (step s e))) = {}"
proof -
  have split: "add_times (e # evs) = add_times [e] @ add_times evs" by (rule add_times_Cons)
  have d1: "distinct (add_times evs)" using assms(1) split by simp
  have fresh_e: "toString ` set (add_times [e]) \<inter> set (map task_id (tasks s)) = {}"
    using assms(3) split by auto
  have d2: "distinct (map task_id (tasks (step s e)))"
    using assms(2) fresh_e by (rule step_distinct)
  have disj: "set (add_times [e]) \<inter> set (add_times evs) = {}"
    using assms(1) split by simp
  have "toString ` set (add_times evs) \<inter> toString ` set (add_times [e]) = {}"
  proof (rule ccontr)
    assume "toString ` set (add_times evs) \<inter> toString ` set (add_times [e]) \<noteq> {}"
    then obtain a b where "a \<in> set (add_times evs)" "b \<in> set (add_times [e])" "toString a = toString b"
      by auto
    with disj toString_inj show False by blast
  qed
  moreover have "toString ` set (add_times evs) \<inter> set (map task_id (tasks s)) = {}"
    using assms(3) split by auto
  ultimately have d3: "toString ` set (add_times evs) \<inter> set (map task_id (tasks (step s e))) = {}"
    using step_ids_subset [of s e] by blast
  from d1 d2 d3 show ?thesis by simp
qed

lemma run_distinct:
  assumes "distinct (add_times evs)"
    and "distinct (map task_id (tasks s))"
    and "toString ` set (add_times evs) \<inter> set (map task_id (tasks s)) = {}"
  shows "distinct (map task_id (tasks (run s evs)))"
  using assms
proof (induction evs arbitrary: s)
  case Nil
  then show ?case by (simp add: run_def)
next
  case (Cons e evs)
  from fresh_step [OF Cons.prems] have "distinct (map task_id (tasks (run (step s e) evs)))"
    by (intro Cons.IH) simp_all
  then show ?case by (simp add: run_def)
qed

text \<open>
  C3, as the specification states it: after any sequence of operations no two tasks share an
  id. The id is the clock reading at the add and nothing else: two adds that read the same
  value of \<^verbatim>\<open>Date.now()\<close> leave two tasks with one id.
\<close>

theorem ids_repeat_counterexample:
  "map task_id (tasks (run init_state
      [ChangeText (js ''Buy milk''), PressAdd 1753461155000 (Inr (js ''n1'')),
       ChangeText (js ''Call bank''), PressAdd 1753461155000 (Inr (js ''n2''))])) =
     [js ''1753461155000'', js ''1753461155000'']"
proof -
  have t: "toString 1753461155000 = js ''1753461155000''"
    by (simp add: toString_def digits.simps digit_def js_def)
  show ?thesis
    by (simp add: run_def settle_def handleAddTask_def scheduleNotification_def init_state_def t
          js_def trim_def is_ws_def)
qed

text \<open>
  C3, amended. The id a task gets at creation is the decimal string of the clock reading
  taken by that add. After any sequence of actions from the empty list in which the adds read
  pairwise distinct clock values, no two tasks have the same id; and from any list of
  distinct ids, an add whose reading prints to none of them leaves the ids distinct.
\<close>

theorem ids_unique:
  "(distinct (add_times evs) \<longrightarrow> distinct (map task_id (tasks (run init_state evs)))) \<and>
   (distinct (map task_id (tasks s)) \<and> toString now \<notin> set (map task_id (tasks s)) \<longrightarrow>
      distinct (map task_id (tasks (step s (PressAdd now sched)))))"
proof (intro conjI impI)
  assume "distinct (add_times evs)"
  then show "distinct (map task_id (tasks (run init_state evs)))"
    by (rule run_distinct) (simp_all add: init_state_def)
next
  assume "distinct (map task_id (tasks s)) \<and> toString now \<notin> set (map task_id (tasks s))"
  then show "distinct (map task_id (tasks (step s (PressAdd now sched))))"
    by (intro step_distinct) simp_all
qed

theorem ids_unique_witness:
  "distinct (add_times [ChangeText (js ''Buy milk''), PressAdd 1753461155000 (Inr (js ''n1'')),
       ChangeText (js ''Call bank''), PressAdd 1753461279000 (Inr (js ''n2''))]) \<and>
   distinct (map task_id (tasks (run init_state
      [ChangeText (js ''Buy milk''), PressAdd 1753461155000 (Inr (js ''n1'')),
       ChangeText (js ''Call bank''), PressAdd 1753461279000 (Inr (js ''n2''))]))) \<and>
   map task_id (tasks (run init_state
      [ChangeText (js ''Buy milk''), PressAdd 1753461155000 (Inr (js ''n1'')),
       ChangeText (js ''Call bank''), PressAdd 1753461279000 (Inr (js ''n2''))])) =
     [js ''1753461155000'', js ''1753461279000'']"
proof -
  have t: "toString 1753461155000 = js ''1753461155000''" "toString 1753461279000 = js ''1753461279000''"
    by (simp_all add: toString_def digits.simps digit_def js_def)
  have d: "distinct (add_times [ChangeText (js ''Buy milk''), PressAdd 1753461155000 (Inr (js ''n1'')),
       ChangeText (js ''Call bank''), PressAdd 1753461279000 (Inr (js ''n2''))])"
    by simp
  have r: "map task_id (tasks (run init_state
      [ChangeText (js ''Buy milk''), PressAdd 1753461155000 (Inr (js ''n1'')),
       ChangeText (js ''Call bank''), PressAdd 1753461279000 (Inr (js ''n2''))])) =
     [js ''1753461155000'', js ''1753461279000'']"
    by (simp add: run_def settle_def handleAddTask_def scheduleNotification_def init_state_def t
          js_def trim_def is_ws_def)
  from ids_unique [THEN conjunct1, of "[ChangeText (js ''Buy milk''), PressAdd 1753461155000 (Inr (js ''n1'')),
       ChangeText (js ''Call bank''), PressAdd 1753461279000 (Inr (js ''n2''))]"] d r
  show ?thesis by blast
qed

section \<open>Completion and the reminder handle\<close>

lemma find_unique:
  "distinct (map task_id ts) \<Longrightarrow> find (\<lambda>t. task_id t = i) ts = Some tt \<Longrightarrow>
     t \<in> set ts \<Longrightarrow> task_id t = i \<Longrightarrow> t = tt"
  by (induction ts) (force split: if_splits)+

lemma toggle_inv:
  assumes "reminder_inv (tasks s)" and "distinct (map task_id (tasks s))"
  shows "reminder_inv (tasks (settle s (handleToggleComplete sched i s)))"
proof (cases "find (\<lambda>t. task_id t = i) (tasks s)")
  case None
  then have "\<forall>t\<in>set (tasks s). task_id t \<noteq> i" by (simp add: find_None_iff)
  then have "map (\<lambda>t. if task_id t = i then t\<lparr>completed := \<not> completed t, notificationId := None\<rparr> else t) (tasks s)
      = tasks s"
    by (simp add: map_idI)
  with None assms(1) show ?thesis
    by (simp add: handleToggleComplete_def settle_def cancelNotification_def)
next
  case (Some tt)
  have only: "t = tt" if "t \<in> set (tasks s)" "task_id t = i" for t
    using assms(2) Some that by (rule find_unique)
  show ?thesis
  proof (cases "completed tt")
    case True
    show ?thesis
    proof (cases sched)
      case (Inl e)
      with Some True assms(1) show ?thesis
        by (simp add: handleToggleComplete_def settle_def scheduleNotification_def)
    next
      case (Inr h)
      with Some True assms(1) only show ?thesis
        by (auto simp: handleToggleComplete_def settle_def scheduleNotification_def
            reminder_inv_def list_all_iff)
    qed
  next
    case False
    with Some assms(1) only show ?thesis
      by (auto simp: handleToggleComplete_def settle_def reminder_inv_def list_all_iff)
  qed
qed

lemma step_inv:
  assumes "reminder_inv (tasks s)" and "distinct (map task_id (tasks s))"
  shows "reminder_inv (tasks (step s e))"
proof (cases e)
  case (PressAdd now sched)
  with assms(1) show ?thesis
    by (cases sched)
      (simp_all add: handleAddTask_def settle_def scheduleNotification_def reminder_inv_def)
next
  case PressSave
  with assms(1) show ?thesis
    by (auto simp: handleSaveEdit_def reminder_inv_def list_all_iff split: option.splits)
next
  case (PressToggle sched i)
  with assms show ?thesis by (simp add: toggle_inv)
next
  case (PressDelete i)
  with assms(1) show ?thesis
    by (simp add: handleDeleteTask_def Let_def reminder_inv_def list_all_iff)
next
  case (PriorityChange i p)
  with assms(1) show ?thesis
    by (auto simp: handlePriorityChange_def reminder_inv_def list_all_iff)
qed (use assms(1) in \<open>simp_all add: handleEditTask_def handleCancelEdit_def\<close>)

lemma run_inv:
  assumes "distinct (add_times evs)"
    and "distinct (map task_id (tasks s))"
    and "toString ` set (add_times evs) \<inter> set (map task_id (tasks s)) = {}"
    and "reminder_inv (tasks s)"
  shows "reminder_inv (tasks (run s evs))"
  using assms
proof (induction evs arbitrary: s)
  case Nil
  then show ?case by (simp add: run_def)
next
  case (Cons e evs)
  have "reminder_inv (tasks (step s e))"
    using Cons.prems(4) Cons.prems(2) by (rule step_inv)
  with fresh_step [OF Cons.prems(1-3)] have "reminder_inv (tasks (run (step s e) evs))"
    by (intro Cons.IH) simp_all
  then show ?case by (simp add: run_def)
qed

text \<open>
  C1, as the specification states it: after any operation every task is completed exactly
  when it has no reminder handle. A toggle rewrites every task that carries the id, with the
  branch chosen from the first of them: after two adds that read the same clock value, one
  completed and one open task share the id, and marking the first incomplete leaves the
  second completed with a reminder handle.
\<close>

theorem reminder_inv_counterexample:
  "tasks (run init_state
      [ChangeText (js ''Buy milk''), PressAdd 1753461155000 (Inr (js ''n1'')),
       PressToggle (Inr (js ''n0'')) (js ''1753461155000''),
       ChangeText (js ''Call bank''), PressAdd 1753461155000 (Inr (js ''n2'')),
       PressToggle (Inr (js ''n3'')) (js ''1753461155000'')]) =
     [\<lparr>task_id = js ''1753461155000'', task_text = js ''Buy milk'', completed = False,
       priority = Medium, notificationId = Some (js ''n3'')\<rparr>,
      \<lparr>task_id = js ''1753461155000'', task_text = js ''Call bank'', completed = True,
       priority = Medium, notificationId = Some (js ''n3'')\<rparr>] \<and>
   \<not> reminder_inv (tasks (run init_state
      [ChangeText (js ''Buy milk''), PressAdd 1753461155000 (Inr (js ''n1'')),
       PressToggle (Inr (js ''n0'')) (js ''1753461155000''),
       ChangeText (js ''Call bank''), PressAdd 1753461155000 (Inr (js ''n2'')),
       PressToggle (Inr (js ''n3'')) (js ''1753461155000'')]))"
proof -
  have t: "toString 1753461155000 = js ''1753461155000''"
    by (simp add: toString_def digits.simps digit_def js_def)
  have r: "tasks (run init_state
      [ChangeText (js ''Buy milk''), PressAdd 1753461155000 (Inr (js ''n1'')),
       PressToggle (Inr (js ''n0'')) (js ''1753461155000''),
       ChangeText (js ''Call bank''), PressAdd 1753461155000 (Inr (js ''n2'')),
       PressToggle (Inr (js ''n3'')) (js ''1753461155000'')]) =
     [\<lparr>task_id = js ''1753461155000'', task_text = js ''Buy milk'', completed = False,
       priority = Medium, notificationId = Some (js ''n3'')\<rparr>,
      \<lparr>task_id = js ''1753461155000'', task_text = js ''Call bank'', completed = True,
       priority = Medium, notificationId = Some (js ''n3'')\<rparr>]"
    by (simp add: run_def settle_def handleAddTask_def handleToggleComplete_def scheduleNotification_def
          cancelNotification_def init_state_def t js_def trim_def is_ws_def)
  show ?thesis by (simp only: r) (simp add: reminder_inv_def)
qed

text \<open>
  C1, amended. In a state whose task ids are pairwise distinct and in which every task is
  completed exactly when it has no reminder handle, the same holds after any action has
  settled; so it holds in every state reached from the empty list by actions whose adds read
  pairwise distinct clock values.
\<close>

theorem reminder_inv_preserved:
  "(reminder_inv (tasks s) \<and> distinct (map task_id (tasks s)) \<longrightarrow> reminder_inv (tasks (step s e))) \<and>
   (distinct (add_times evs) \<longrightarrow> reminder_inv (tasks (run init_state evs)))"
proof (intro conjI impI)
  assume "reminder_inv (tasks s) \<and> distinct (map task_id (tasks s))"
  then show "reminder_inv (tasks (step s e))" by (simp add: step_inv)
next
  assume "distinct (add_times evs)"
  then show "reminder_inv (tasks (run init_state evs))"
    by (rule run_inv) (simp_all add: init_state_def reminder_inv_def)
qed

theorem reminder_inv_preserved_witness:
  "distinct (add_times [ChangeText (js ''Buy milk''), PressAdd 1753461155000 (Inr (js ''n1'')),
       PressToggle (Inr (js ''n0'')) (js ''1753461155000''),
       ChangeText (js ''Call bank''), PressAdd 1753461279000 (Inr (js ''n2'')),
       PressToggle (Inr (js ''n3'')) (js ''1753461155000'')]) \<and>
   reminder_inv (tasks (run init_state
      [ChangeText (js ''Buy milk''), PressAdd 1753461155000 (Inr (js ''n1'')),
       PressToggle (Inr (js ''n0'')) (js ''1753461155000''),
       ChangeText (js ''Call bank''), PressAdd 1753461279000 (Inr (js ''n2'')),
       PressToggle (Inr (js ''n3'')) (js ''1753461155000'')])) \<and>
   tasks (run init_state
      [ChangeText (js ''Buy milk''), PressAdd 1753461155000 (Inr (js ''n1'')),
       PressToggle (Inr (js ''n0'')) (js ''1753461155000''),
       ChangeText (js ''Call bank''), PressAdd 1753461279000 (Inr (js ''n2'')),
       PressToggle (Inr (js ''n3'')) (js ''1753461155000'')]) =
     [\<lparr>task_id = js ''1753461155000'', task_text = js ''Buy milk'', completed = False,
       priority = Medium, notificationId = Some (js ''n3'')\<rparr>,
      \<lparr>task_id = js ''1753461279000'', task_text = js ''Call bank'', completed = False,
       priority = Medium, notificationId = Some (js ''n2'')\<rparr>]"
proof -
  have t: "toString 1753461155000 = js ''1753461155000''" "toString 1753461279000 = js ''1753461279000''"
    by (simp_all add: toString_def digits.simps digit_def js_def)
  have d: "distinct (add_times [ChangeText (js ''Buy milk''), PressAdd 1753461155000 (Inr (js ''n1'')),
       PressToggle (Inr (js ''n0'')) (js ''1753461155000''),
       ChangeText (js ''Call bank''), PressAdd 1753461279000 (Inr (js ''n2'')),
       PressToggle (Inr (js ''n3'')) (js ''1753461155000'')])"
    by simp
  have r: "tasks (run init_state
      [ChangeText (js ''Buy milk''), PressAdd 1753461155000 (Inr (js ''n1'')),
       PressToggle (Inr (js ''n0'')) (js ''1753461155000''),
       ChangeText (js ''Call bank''), PressAdd 1753461279000 (Inr (js ''n2'')),
       PressToggle (Inr (js ''n3'')) (js ''1753461155000'')]) =
     [\<lparr>task_id = js ''1753461155000'', task_text = js ''Buy milk'', completed = False,
       priority = Medium, notificationId = Some (js ''n3'')\<rparr>,
      \<lparr>task_id = js ''1753461279000'', task_text = js ''Call bank'', completed = False,
       priority = Medium, notificationId = Some (js ''n2'')\<rparr>]"
    by (simp add: run_def settle_def handleAddTask_def handleToggleComplete_def scheduleNotification_def
          cancelNotification_def init_state_def t js_def trim_def is_ws_def)
  from reminder_inv_preserved [THEN conjunct2, of "[ChangeText (js ''Buy milk''), PressAdd 1753461155000 (Inr (js ''n1'')),
       PressToggle (Inr (js ''n0'')) (js ''1753461155000''),
       ChangeText (js ''Call bank''), PressAdd 1753461279000 (Inr (js ''n2'')),
       PressToggle (Inr (js ''n3'')) (js ''1753461155000'')]"] d r
  show ?thesis by blast
qed

section \<open>Toggling twice\<close>

lemma find_map_upd:
  "(\<And>t. task_id (f t) = task_id t) \<Longrightarrow>
     find (\<lambda>t. task_id t = i) (map (\<lambda>t. if task_id t = i then f t else t) ts) =
     map_option f (find (\<lambda>t. task_id t = i) ts)"
  by (induction ts) auto

lemma toggle_open:
  assumes "find (\<lambda>t. task_id t = i) (tasks s) = Some t" and "\<not> completed t"
  shows "handleToggleComplete sched i s =
           (cancelNotification (notificationId t) @ [Announce ''Task marked complete''],
            Inr (s\<lparr>tasks := map (\<lambda>t. if task_id t = i
                             then t\<lparr>completed := \<not> completed t, notificationId := None\<rparr>
                             else t) (tasks s)\<rparr>))"
  using assms by (simp add: handleToggleComplete_def)

lemma toggle_done:
  assumes "find (\<lambda>t. task_id t = i) (tasks s) = Some t" and "completed t"
  shows "handleToggleComplete (Inr h) i s =
           ([Schedule (task_text t), Announce ''Task marked incomplete''],
            Inr (s\<lparr>tasks := map (\<lambda>t. if task_id t = i
                             then t\<lparr>completed := \<not> completed t, notificationId := Some h\<rparr>
                             else t) (tasks s)\<rparr>))"
  using assms by (simp add: handleToggleComplete_def scheduleNotification_def)

text \<open>
  C4, as the specification states it: two toggles in a row bring the completion flag back.
  The toggle that marks a task incomplete changes the list only when its schedule request
  resolves: an open task toggled twice, the second request rejecting, stays completed.
\<close>

theorem toggle_twice_counterexample:
  "map completed (tasks (init_state\<lparr>tasks := [\<lparr>task_id = js ''1753461155000'', task_text = js ''Buy milk'',
        completed = False, priority = Medium, notificationId = Some (js ''n1'')\<rparr>]\<rparr>)) = [False] \<and>
   map completed
     (tasks (run (init_state\<lparr>tasks := [\<lparr>task_id = js ''1753461155000'', task_text = js ''Buy milk'',
        completed = False, priority = Medium, notificationId = Some (js ''n1'')\<rparr>]\<rparr>)
        [PressToggle (Inr (js ''n2'')) (js ''1753461155000''), PressToggle (Inl Rejected) (js ''1753461155000'')])) =
     [True]"
  by (simp add: run_def settle_def handleToggleComplete_def scheduleNotification_def cancelNotification_def js_def)

text \<open>
  C4, amended. For an id that some task carries, when the schedule request of the toggle
  that marks the task incomplete succeeds with handle \<open>h\<close>, two toggles in a row leave the
  first task with that id as it was except for its reminder handle: the completion flag is
  back at its original value, a task that was completed has no handle, and a task that was
  open carries \<open>h\<close>, the handle of the request the second toggle issued for the task's
  text, whatever handle it carried before.
\<close>

theorem toggle_twice:
  assumes "find (\<lambda>t. task_id t = i) (tasks s) = Some t"
    and "if completed t then sched1 = Inr h else sched2 = Inr h"
  shows "find (\<lambda>t. task_id t = i) (tasks (run s [PressToggle sched1 i, PressToggle sched2 i])) =
           Some (t\<lparr>notificationId := (if completed t then None else Some h)\<rparr>) \<and>
         (\<not> completed t \<longrightarrow>
            fst (handleToggleComplete sched2 i (step s (PressToggle sched1 i))) =
              [Schedule (task_text t), Announce ''Task marked incomplete''])"
proof (cases "completed t")
  case True
  with assms(2) have s1: "sched1 = Inr h" by simp
  define ts1 where "ts1 = map (\<lambda>t. if task_id t = i
                             then t\<lparr>completed := \<not> completed t, notificationId := Some h\<rparr>
                             else t) (tasks s)"
  have a: "step s (PressToggle sched1 i) = s\<lparr>tasks := ts1\<rparr>"
    using toggle_done [OF assms(1) True, of h] s1 by (simp add: settle_def ts1_def)
  have f1: "find (\<lambda>t. task_id t = i) ts1 = Some (t\<lparr>completed := False, notificationId := Some h\<rparr>)"
    using assms(1) True by (simp add: ts1_def find_map_upd)
  then have f1': "find (\<lambda>t. task_id t = i) (tasks (s\<lparr>tasks := ts1\<rparr>)) =
      Some (t\<lparr>completed := False, notificationId := Some h\<rparr>)"
    by simp
  have b: "step (s\<lparr>tasks := ts1\<rparr>) (PressToggle sched2 i) =
      s\<lparr>tasks := map (\<lambda>t. if task_id t = i
                             then t\<lparr>completed := \<not> completed t, notificationId := None\<rparr>
                             else t) ts1\<rparr>"
    using toggle_open [OF f1', of sched2] by (simp add: settle_def)
  have "find (\<lambda>t. task_id t = i) (tasks (step (s\<lparr>tasks := ts1\<rparr>) (PressToggle sched2 i))) =
      Some (t\<lparr>completed := True, notificationId := None\<rparr>)"
    by (simp only: b) (simp add: find_map_upd f1)
  with a True show ?thesis by (simp add: run_def)
next
  case False
  with assms(2) have s2: "sched2 = Inr h" by simp
  define ts1 where "ts1 = map (\<lambda>t. if task_id t = i
                             then t\<lparr>completed := \<not> completed t, notificationId := None\<rparr>
                             else t) (tasks s)"
  have a: "step s (PressToggle sched1 i) = s\<lparr>tasks := ts1\<rparr>"
    using toggle_open [OF assms(1) False, of sched1] by (simp add: settle_def ts1_def)
  have f1: "find (\<lambda>t. task_id t = i) ts1 = Some (t\<lparr>completed := True, notificationId := None\<rparr>)"
    using assms(1) False by (simp add: ts1_def find_map_upd)
  then have f1': "find (\<lambda>t. task_id t = i) (tasks (s\<lparr>tasks := ts1\<rparr>)) =
      Some (t\<lparr>completed := True, notificationId := None\<rparr>)"
    by simp
  have c: "handleToggleComplete sched2 i (s\<lparr>tasks := ts1\<rparr>) =
      ([Schedule (task_text t), Announce ''Task marked incomplete''],
       Inr (s\<lparr>tasks := map (\<lambda>t. if task_id t = i
                             then t\<lparr>completed := \<not> completed t, notificationId := Some h\<rparr>
                             else t) ts1\<rparr>))"
    using toggle_done [OF f1', of h] s2 by simp
  have "find (\<lambda>t. task_id t = i) (tasks (step (s\<lparr>tasks := ts1\<rparr>) (PressToggle sched2 i))) =
      Some (t\<lparr>completed := False, notificationId := Some h\<rparr>)"
    by (simp add: c settle_def find_map_upd f1)
  with a c False show ?thesis by (simp add: run_def)
qed

theorem toggle_twice_witness:
  "find (\<lambda>t. task_id t = js ''1753461155000'')
     (tasks (run (init_state\<lparr>tasks := two_tasks\<rparr>)
        [PressToggle (Inr (js ''n2'')) (js ''1753461155000''), PressToggle (Inr (js ''n3'')) (js ''1753461155000'')])) =
     Some \<lparr>task_id = js ''1753461155000'', task_text = js ''Buy milk'', completed = False,
           priority = High, notificationId = Some (js ''n3'')\<rparr> \<and>
   find (\<lambda>t. task_id t = js ''1753461279000'')
     (tasks (run (init_state\<lparr>tasks := two_tasks\<rparr>)
        [PressToggle (Inr (js ''n2'')) (js ''1753461279000''), PressToggle (Inr (js ''n3'')) (js ''1753461279000'')])) =
     Some \<lparr>task_id = js ''1753461279000'', task_text = js ''Call bank'', completed = True,
           priority = Low, notificationId = None\<rparr>"
proof -
  have a: "find (\<lambda>t. task_id t = js ''1753461155000'') (tasks (init_state\<lparr>tasks := two_tasks\<rparr>)) =
      Some \<lparr>task_id = js ''1753461155000'', task_text = js ''Buy milk'', completed = False,
           priority = High, notificationId = Some (js ''n1'')\<rparr>"
    by (simp add: two_tasks_def js_def)
  have b: "find (\<lambda>t. task_id t = js ''1753461279000'') (tasks (init_state\<lparr>tasks := two_tasks\<rparr>)) =
      Some \<lparr>task_id = js ''1753461279000'', task_text = js ''Call bank'', completed = True,
           priority = Low, notificationId = None\<rparr>"
    by (simp add: two_tasks_def js_def)
  from toggle_twice [OF a, of "Inr (js ''n2'')" "js ''n3''" "Inr (js ''n3'')", THEN conjunct1]
    toggle_twice [OF b, of "Inr (js ''n2'')" "js ''n2''" "Inr (js ''n3'')", THEN conjunct1]
  show ?thesis by simp
qed

end
